theory Spec2Isabelle
  imports Complex_Main
begin

section \<open>Python values: strings, errors, rounding\<close>

text \<open>
  Texts are Isabelle strings. A character is read by its code; the letters, digits and
  white space of the model are the ASCII ones, and a character with a code of 128 or more
  stands for a symbol that is no letter, no digit and no white space and has no case.
  Python floats are exact rationals here: every section score and the total are small
  multiples of one half, which binary floating point represents exactly; a coverage
  percentage is the exact quotient rounded to one decimal (half to even).
\<close>

datatype error = KeyError string | ValueError string

definition code :: "char \<Rightarrow> nat" where
  "code c = of_char c"

definition is_upper :: "char \<Rightarrow> bool" where
  "is_upper c = (65 \<le> code c \<and> code c \<le> 90)"

definition is_lower :: "char \<Rightarrow> bool" where
  "is_lower c = (97 \<le> code c \<and> code c \<le> 122)"

definition is_digit :: "char \<Rightarrow> bool" where
  "is_digit c = (48 \<le> code c \<and> code c \<le> 57)"

definition lower_char :: "char \<Rightarrow> char" where
  "lower_char c = (if is_upper c then char_of (code c + 32) else c)"

definition upper_char :: "char \<Rightarrow> char" where
  "upper_char c = (if is_lower c then char_of (code c - 32) else c)"

text \<open>\<^verbatim>\<open>s.lower()\<close> and \<^verbatim>\<open>s.upper()\<close>.\<close>

definition lower :: "string \<Rightarrow> string" where
  "lower s = map lower_char s"


text \<open>\<^verbatim>\<open>s.startswith(p)\<close> and the substring test \<^verbatim>\<open>p in s\<close>.\<close>

primrec startswith :: "string \<Rightarrow> string \<Rightarrow> bool" where
  "startswith s [] = True"
| "startswith s (p # ps) = (case s of [] \<Rightarrow> False | c # cs \<Rightarrow> c = p \<and> startswith cs ps)"

primrec str_in :: "string \<Rightarrow> string \<Rightarrow> bool" where
  "str_in p [] = (p = [])"
| "str_in p (c # cs) = (startswith (c # cs) p \<or> str_in p cs)"



section \<open>domain\_keywords.py: the keyword catalog\<close>

record domain_data =
  name :: string
  keyword_list :: "string list"

text \<open>
  \<^verbatim>\<open>self.domains\<close> is a dictionary that keeps the order of its keys; no method adds or
  removes a key.
\<close>

type_synonym domains = "(string \<times> domain_data) list"

definition internal_audit_keywords :: "string list" where
  "internal_audit_keywords =
     [''risk assessment'', ''process control'', ''sox compliance'', ''internal controls'',
      ''audit trail'', ''fraud detection'', ''operational audit'', ''control testing'']"

definition direct_tax_keywords :: "string list" where
  "direct_tax_keywords =
     [''income tax returns'', ''tds'', ''tcs'', ''corporate tax planning'',
      ''tax audit'', ''section 80c'', ''section 10(10d)'', ''mat'', ''amt'',
      ''transfer pricing'']"

definition fpa_keywords :: "string list" where
  "fpa_keywords =
     [''forecasting'', ''budgeting'', ''variance analysis'', ''financial modeling'',
      ''kpi tracking'', ''dashboarding'', ''scenario analysis'']"

text \<open>
  The display name of \<^verbatim>\<open>banking\<close> holds three characters outside ASCII between
  ``Banking'' and ``Credit''; they are written as the bytes of the source file.
\<close>

definition init_domains :: domains where
  "init_domains =
   [(''general'', \<lparr>name = ''General'', keyword_list =
       [''finance basics'', ''business strategy'', ''corporate structure'',
        ''communication skills'', ''excel'', ''ethics in finance'']\<rparr>),
    (''accounting'', \<lparr>name = ''Accounting'', keyword_list =
       [''journal entries'', ''ledger posting'', ''trial balance'', ''balance sheet'',
        ''profit & loss'', ''depreciation'', ''accruals'', ''accounts payable'',
        ''accounts receivable'']\<rparr>),
    (''banking'', \<lparr>name = ''Banking '' @
          [CHR 0xC3, CHR 0xA2, CHR 0xE2, CHR 0x82, CHR 0xAC, CHR 0xE2, CHR 0x80, CHR 0x9C]
          @ '' Credit Manager / Debt Management'', keyword_list =
       [''credit appraisal'', ''loan underwriting'', ''risk assessment'',
        ''npa management'', ''debt restructuring'', ''collateral evaluation'',
        ''cibil score'']\<rparr>),
    (''direct_tax'', \<lparr>name = ''Direct Tax / Income Tax / Corporate Tax'',
       keyword_list = direct_tax_keywords\<rparr>),
    (''fpa'', \<lparr>name = ''FP&A (Financial Planning & Analysis)'', keyword_list = fpa_keywords\<rparr>),
    (''gst'', \<lparr>name = ''GST / Indirect Taxes'', keyword_list =
       [''gst compliance'', ''input tax credit'', ''e-way bill'', ''gst return filing'',
        ''vat'', ''excise'', ''customs duty'', ''indirect tax audit'']\<rparr>),
    (''internal_audit'', \<lparr>name = ''Internal Audit'', keyword_list = internal_audit_keywords\<rparr>),
    (''investment_banking'', \<lparr>name = ''Investment Banking'', keyword_list =
       [''ipo'', ''mergers & acquisitions (m&a)'', ''valuation models'', ''pitchbook'',
        ''equity financing'', ''debt financing'', ''dcf'', ''lbo'',
        ''comparable companies analysis'', ''capital markets'']\<rparr>),
    (''r2r'', \<lparr>name = ''R2R (Record to Report)'', keyword_list =
       [''financial closing'', ''journal entries'', ''general ledger'',
        ''financial statements'', ''reconciliation'', ''month-end close'', ''trial balance'',
        ''fixed assets accounting'']\<rparr>),
    (''statutory_audit'', \<lparr>name = ''Statutory Audit'', keyword_list =
       [''ifrs'', ''gaap'', ''audit report'', ''external audit'', ''compliance'',
        ''internal control'', ''sampling techniques'', ''auditor independence'']\<rparr>),
    (''wealth_management'', \<lparr>name = ''Wealth Management'', keyword_list =
       [''asset allocation'', ''portfolio management'', ''financial planning'',
        ''risk tolerance'', ''retirement planning'', ''investment advisory'', ''mutual funds'',
        ''high-net-worth individuals (hnis)'']\<rparr>),
    (''auditing'', \<lparr>name = ''Internal Audit'', keyword_list = internal_audit_keywords\<rparr>),
    (''taxation'', \<lparr>name = ''Direct Tax / Income Tax / Corporate Tax'',
       keyword_list = direct_tax_keywords\<rparr>),
    (''finance'', \<lparr>name = ''FP&A (Financial Planning & Analysis)'',
       keyword_list = fpa_keywords\<rparr>)]"

text \<open>
  \<^verbatim>\<open>get_domain_keywords\<close>. The fallback is
  \<^verbatim>\<open>self.domains.get('general', self.domains['accounting'])\<close>: Python evaluates the
  default argument first, so the lookup of \<^verbatim>\<open>'accounting'\<close> raises when that key is
  missing, whether or not \<^verbatim>\<open>'general'\<close> is there.
\<close>

definition get_domain_keywords :: "domains \<Rightarrow> string \<Rightarrow> error + domain_data" where
  "get_domain_keywords ds domain =
     (case map_of ds domain of
        Some dd \<Rightarrow> Inr dd
      | None \<Rightarrow>
          (case map_of ds ''accounting'' of
             None \<Rightarrow> Inl (KeyError ''accounting'')
           | Some acc \<Rightarrow> Inr (case map_of ds ''general'' of Some g \<Rightarrow> g | None \<Rightarrow> acc)))"

text \<open>
  \<^verbatim>\<open>add_custom_keywords\<close> mutates the catalog: the model returns the outcome of the
  call together with the catalog after it. The \<^verbatim>\<open>raise\<close> comes before any write.
\<close>

definition extend_keywords :: "string \<Rightarrow> string list \<Rightarrow> string \<times> domain_data \<Rightarrow> string \<times> domain_data" where
  "extend_keywords domain new_keywords e =
     (if fst e = domain then (fst e, (snd e)\<lparr>keyword_list := keyword_list (snd e) @ new_keywords\<rparr>) else e)"

definition add_custom_keywords :: "domains \<Rightarrow> string \<Rightarrow> string list \<Rightarrow> (error + unit) \<times> domains" where
  "add_custom_keywords ds domain kws =
     (case map_of ds domain of
        None \<Rightarrow> (Inl (ValueError domain), ds)
      | Some dd \<Rightarrow>
          (let existing_keywords = set (map lower (keyword_list dd));
               new_keywords = filter (\<lambda>kw. lower kw \<notin> existing_keywords) kws
           in (Inr (), map (extend_keywords domain new_keywords) ds)))"





text \<open>The catalogs a program can hold: the initial one, changed by successful additions.\<close>

inductive reachable :: "domains \<Rightarrow> bool" where
  init: "reachable init_domains"
| add: "reachable ds \<Longrightarrow> add_custom_keywords ds domain kws = (Inr (), ds') \<Longrightarrow> reachable ds'"

text \<open>No two keywords of a domain are equal up to case.\<close>

definition no_duplicates :: "domain_data \<Rightarrow> bool" where
  "no_duplicates dd = distinct (map lower (keyword_list dd))"

section \<open>Python strings\<close>

text \<open>
  White space as \<^verbatim>\<open>str.isspace\<close> and the pattern \<^verbatim>\<open>\s\<close> see it in ASCII: tab, line feed,
  vertical tab, form feed, carriage return, the four separators 28 to 31, and the space.
\<close>

definition is_space :: "char \<Rightarrow> bool" where
  "is_space c = ((9 \<le> code c \<and> code c \<le> 13) \<or> (28 \<le> code c \<and> code c \<le> 32))"

definition is_word :: "char \<Rightarrow> bool" where
  "is_word c = (is_lower c \<or> is_upper c \<or> is_digit c \<or> c = CHR ''_'')"

definition newline :: char where
  "newline = CHR 0x0A"

definition apostrophe :: char where
  "apostrophe = CHR 0x27"

definition quoted :: "string \<Rightarrow> string" where
  "quoted s = [CHR 0x22] @ s @ [CHR 0x22]"

text \<open>\<^verbatim>\<open>s.strip()\<close>.\<close>

definition strip :: "string \<Rightarrow> string" where
  "strip s = rev (dropWhile is_space (rev (dropWhile is_space s)))"

text \<open>
  \<^verbatim>\<open>s.split()\<close>: the maximal runs of characters that are not white space. The first
  argument is the word being read.
\<close>

primrec split_ws :: "string \<Rightarrow> string \<Rightarrow> string list" where
  "split_ws cur [] = (if cur = [] then [] else [cur])"
| "split_ws cur (c # cs) =
     (if is_space c then (if cur = [] then split_ws [] cs else cur # split_ws [] cs)
      else split_ws (cur @ [c]) cs)"

definition split :: "string \<Rightarrow> string list" where
  "split s = split_ws [] s"



text \<open>
  \<^verbatim>\<open>int(s)\<close> for a string of digits, and \<^verbatim>\<open>float(s)\<close> for digits with an optional point.
  The integers are unbounded, as Python's are; the limit that CPython puts on the number of
  digits it converts (4300 unless configured otherwise) is a limit of the interpreter, like
  the memory, and stays outside the model.
\<close>

definition digit_val :: "char \<Rightarrow> nat" where
  "digit_val c = code c - 48"

definition int_of_digits :: "string \<Rightarrow> nat" where
  "int_of_digits s = foldl (\<lambda>n c. 10 * n + digit_val c) 0 s"


section \<open>The regular expressions of Python's \<^verbatim>\<open>re\<close> module\<close>

text \<open>
  The program's patterns are written as terms of \<open>regex\<close>. An item of a character class is
  a character, a range, or one of the escapes \<^verbatim>\<open>\w\<close>, \<^verbatim>\<open>\s\<close>, \<^verbatim>\<open>\d\<close>.
\<close>

datatype cset = Lit char | Range char char | Word | Space | Digit

datatype regex =
    Sym "cset list"
  | NSym "cset list"
  | Dot
  | Eps
  | Seq regex regex
  | Alt regex regex
  | Star bool regex
  | Group nat regex
  | Look regex
  | WordB
  | Bol
  | Eol

datatype flag = IGNORECASE | DOTALL

primrec in_cset :: "char \<Rightarrow> cset \<Rightarrow> bool" where
  "in_cset c (Lit a) = (c = a)"
| "in_cset c (Range a b) = (code a \<le> code c \<and> code c \<le> code b)"
| "in_cset c Word = is_word c"
| "in_cset c Space = is_space c"
| "in_cset c Digit = is_digit c"

text \<open>Under \<^verbatim>\<open>IGNORECASE\<close> a character is in a class when one of its two cases is.\<close>

definition in_class :: "flag list \<Rightarrow> cset list \<Rightarrow> char \<Rightarrow> bool" where
  "in_class fl cs c =
     (if list_ex (in_cset c) cs then True
      else if IGNORECASE \<in> set fl
      then (if list_ex (in_cset (lower_char c)) cs then True else list_ex (in_cset (upper_char c)) cs)
      else False)"

text \<open>
  A position of the matcher: the character before it (none at the start of the text), the
  text from it on, and the groups captured so far (the latest capture of a group first).
\<close>

record mstate =
  prev :: "char option"
  rest :: string
  groups :: "(nat \<times> string) list"

definition advance :: "mstate \<Rightarrow> mstate list" where
  "advance s = (case rest s of [] \<Rightarrow> [] | c # cs \<Rightarrow> [s\<lparr>prev := Some c, rest := cs\<rparr>])"

definition step_if :: "(char \<Rightarrow> bool) \<Rightarrow> mstate \<Rightarrow> mstate list" where
  "step_if p s = (case rest s of [] \<Rightarrow> [] | c # cs \<Rightarrow> if p c then [s\<lparr>prev := Some c, rest := cs\<rparr>] else [])"

definition at_boundary :: "mstate \<Rightarrow> bool" where
  "at_boundary s =
     ((case prev s of None \<Rightarrow> False | Some c \<Rightarrow> is_word c)
      \<noteq> (case rest s of [] \<Rightarrow> False | c # cs \<Rightarrow> is_word c))"

definition capture :: "nat \<Rightarrow> mstate \<Rightarrow> mstate \<Rightarrow> mstate" where
  "capture n s s' =
     s'\<lparr>groups := (n, take (length (rest s) - length (rest s')) (rest s)) # groups s'\<rparr>"

text \<open>
  A repetition: every pass has to consume a character, so the text left bounds the number
  of passes. A greedy repetition tries one more pass before it tries to stop, a lazy one
  (\<^verbatim>\<open>*?\<close>) the other way round.
\<close>

primrec star_loop :: "(mstate \<Rightarrow> mstate list) \<Rightarrow> bool \<Rightarrow> nat \<Rightarrow> mstate \<Rightarrow> mstate list" where
  "star_loop pass greedy 0 s = [s]"
| "star_loop pass greedy (Suc n) s =
     (let more = concat (map (\<lambda>s'. if length (rest s') < length (rest s)
                                     then star_loop pass greedy n s' else []) (pass s))
      in if greedy then more @ [s] else s # more)"

text \<open>
  \<open>matches fl r s\<close>: the positions at which a match of \<open>r\<close> that starts at \<open>s\<close> can end, in
  the order in which the backtracking matcher of \<^verbatim>\<open>re\<close> tries them.
\<close>

primrec matches :: "flag list \<Rightarrow> regex \<Rightarrow> mstate \<Rightarrow> mstate list" where
  "matches fl (Sym cs) s = step_if (in_class fl cs) s"
| "matches fl (NSym cs) s = step_if (\<lambda>c. \<not> in_class fl cs c) s"
| "matches fl Dot s = step_if (\<lambda>c. DOTALL \<in> set fl \<or> c \<noteq> newline) s"
| "matches fl Eps s = [s]"
| "matches fl (Seq a b) s = concat (map (matches fl b) (matches fl a s))"
| "matches fl (Alt a b) s = matches fl a s @ matches fl b s"
| "matches fl (Star greedy r) s = star_loop (matches fl r) greedy (length (rest s)) s"
| "matches fl (Group n r) s = map (capture n s) (matches fl r s)"
| "matches fl (Look r) s = (if matches fl r s = [] then [] else [s])"
| "matches fl WordB s = (if at_boundary s then [s] else [])"
| "matches fl Bol s = (if prev s = None then [s] else [])"
| "matches fl Eol s = (if rest s = [] \<or> rest s = [newline] then [s] else [])"

text \<open>The other operators of the pattern language, written with the ones above.\<close>

definition chr :: "char \<Rightarrow> regex" where
  "chr c = Sym [Lit c]"

definition lit :: "string \<Rightarrow> regex" where
  "lit w = foldr (\<lambda>c r. Seq (chr c) r) w Eps"

primrec alts :: "regex list \<Rightarrow> regex" where
  "alts [] = Sym []"
| "alts (r # rs) = (if rs = [] then r else Alt r (alts rs))"

definition seqs :: "regex list \<Rightarrow> regex" where
  "seqs rs = foldr Seq rs Eps"

definition one_of :: "string list \<Rightarrow> regex" where
  "one_of ws = alts (map lit ws)"

definition plus :: "regex \<Rightarrow> regex" where
  "plus r = Seq r (Star True r)"

definition star :: "regex \<Rightarrow> regex" where
  "star r = Star True r"

definition opt :: "regex \<Rightarrow> regex" where
  "opt r = Alt r Eps"

text \<open>\<^verbatim>\<open>r{n}\<close>, \<^verbatim>\<open>r{n,}\<close> and \<^verbatim>\<open>r{n,n+k}\<close>.\<close>

primrec times :: "nat \<Rightarrow> regex \<Rightarrow> regex" where
  "times 0 r = Eps"
| "times (Suc n) r = Seq r (times n r)"

primrec upto :: "nat \<Rightarrow> regex \<Rightarrow> regex" where
  "upto 0 r = Eps"
| "upto (Suc k) r = opt (Seq r (upto k r))"

definition at_least :: "nat \<Rightarrow> regex \<Rightarrow> regex" where
  "at_least n r = Seq (times n r) (Star True r)"

definition between :: "nat \<Rightarrow> nat \<Rightarrow> regex \<Rightarrow> regex" where
  "between n m r = Seq (times n r) (upto (m - n) r)"

text \<open>A match object: \<^verbatim>\<open>m.start()\<close>, \<^verbatim>\<open>m.end()\<close>, \<^verbatim>\<open>m.group()\<close> and the captured groups.\<close>

record rmatch =
  m_start :: nat
  m_end :: nat
  m_group :: string
  m_groups :: "(nat \<times> string) list"

definition group :: "rmatch \<Rightarrow> nat \<Rightarrow> string" where
  "group m n = (case map_of (m_groups m) n of None \<Rightarrow> [] | Some g \<Rightarrow> g)"

text \<open>
  The match that starts at a position, if there is one: the first end the matcher
  reaches. \<open>n\<close> is the length of the whole text.
\<close>

definition match_at :: "flag list \<Rightarrow> regex \<Rightarrow> nat \<Rightarrow> char option \<Rightarrow> string \<Rightarrow> rmatch option" where
  "match_at fl r n p cs =
     (case matches fl r \<lparr>prev = p, rest = cs, groups = []\<rparr> of
        [] \<Rightarrow> None
      | e # _ \<Rightarrow> Some \<lparr>m_start = n - length cs,
                       m_end = n - length (rest e),
                       m_group = take (length cs - length (rest e)) cs,
                       m_groups = groups e\<rparr>)"

text \<open>\<^verbatim>\<open>re.search\<close>: the match at the leftmost position that has one.\<close>

primrec search_from :: "flag list \<Rightarrow> regex \<Rightarrow> nat \<Rightarrow> char option \<Rightarrow> string \<Rightarrow> rmatch option" where
  "search_from fl r n p [] = match_at fl r n p []"
| "search_from fl r n p (c # cs) =
     (case match_at fl r n p (c # cs) of
        Some m \<Rightarrow> Some m
      | None \<Rightarrow> search_from fl r n (Some c) cs)"

definition re_search :: "regex \<Rightarrow> string \<Rightarrow> flag list \<Rightarrow> rmatch option" where
  "re_search r s fl = search_from fl r (length s) None s"

definition found :: "rmatch option \<Rightarrow> bool" where
  "found m = (m \<noteq> None)"

text \<open>
  \<^verbatim>\<open>re.finditer\<close>: the matches from left to right, each search starting where the match
  before ended. \<open>k\<close> counts the characters of the last match still to be passed over,
  \<^verbatim>\<open>len(m.group()) - 1\<close> after its first character.
  (After a match of no character the scan moves on by one; no pattern of the program
  matches the empty string.)
\<close>

primrec iter_from :: "flag list \<Rightarrow> regex \<Rightarrow> nat \<Rightarrow> nat \<Rightarrow> char option \<Rightarrow> string \<Rightarrow> rmatch list" where
  "iter_from fl r n k p [] =
     (if k = 0 then (case match_at fl r n p [] of None \<Rightarrow> [] | Some m \<Rightarrow> [m]) else [])"
| "iter_from fl r n k p (c # cs) =
     (if 0 < k then iter_from fl r n (k - 1) (Some c) cs
      else (case match_at fl r n p (c # cs) of
              None \<Rightarrow> iter_from fl r n 0 (Some c) cs
            | Some m \<Rightarrow> m # iter_from fl r n (length (m_group m) - 1) (Some c) cs))"

definition re_finditer :: "regex \<Rightarrow> string \<Rightarrow> flag list \<Rightarrow> rmatch list" where
  "re_finditer r s fl = iter_from fl r (length s) 0 None s"

text \<open>
  \<^verbatim>\<open>re.sub(pattern, repl, string, count)\<close>: every match, or the first \<open>count\<close> ones when
  \<open>count\<close> is not 0, replaced by \<open>repl\<close>. \<open>left\<close> is the number of replacements still
  allowed, if bounded.
\<close>

primrec sub_from :: "flag list \<Rightarrow> regex \<Rightarrow> string \<Rightarrow> nat \<Rightarrow> nat option \<Rightarrow> nat \<Rightarrow> char option \<Rightarrow> string \<Rightarrow> string" where
  "sub_from fl r repl n left k p [] =
     (if k = 0 \<and> left \<noteq> Some 0 \<and> match_at fl r n p [] \<noteq> None then repl else [])"
| "sub_from fl r repl n left k p (c # cs) =
     (if 0 < k then sub_from fl r repl n left (k - 1) (Some c) cs
      else if left = Some 0 then c # sub_from fl r repl n left 0 (Some c) cs
      else (case match_at fl r n p (c # cs) of
              None \<Rightarrow> c # sub_from fl r repl n left 0 (Some c) cs
            | Some m \<Rightarrow>
                repl @ (if m_group m = [] then [c] else [])
                  @ sub_from fl r repl n (map_option (\<lambda>j. j - 1) left)
                      (length (m_group m) - 1) (Some c) cs))"

definition re_sub :: "regex \<Rightarrow> string \<Rightarrow> string \<Rightarrow> nat \<Rightarrow> flag list \<Rightarrow> string" where
  "re_sub r repl s count fl =
     sub_from fl r repl (length s) (if count = 0 then None else Some count) 0 None s"

text \<open>\<^verbatim>\<open>re.split\<close> for a pattern without groups: the pieces between the matches.\<close>

primrec split_from :: "flag list \<Rightarrow> regex \<Rightarrow> nat \<Rightarrow> nat \<Rightarrow> char option \<Rightarrow> string \<Rightarrow> string \<Rightarrow> string list" where
  "split_from fl r n k p cur [] = [cur]"
| "split_from fl r n k p cur (c # cs) =
     (if 0 < k then split_from fl r n (k - 1) (Some c) cur cs
      else (case match_at fl r n p (c # cs) of
              None \<Rightarrow> split_from fl r n 0 (Some c) (cur @ [c]) cs
            | Some m \<Rightarrow>
                if m_group m = [] then split_from fl r n 0 (Some c) (cur @ [c]) cs
                else cur # split_from fl r n (length (m_group m) - 1) (Some c) [] cs))"

definition re_split :: "regex \<Rightarrow> string \<Rightarrow> string list" where
  "re_split r s = split_from [] r (length s) 0 None [] s"

section \<open>resume\_scorer.py: feedback messages\<close>

text \<open>
  A message is its text with the places of the interpolated values, and the values: a
  string, a number, a list (joined with a comma in the source) or a float. Where the
  source joins a \<^verbatim>\<open>set\<close>, the list holds its elements once, in the order of their first
  occurrence; the order in which Python lists a set is not modelled.
\<close>

datatype arg = S string | N nat | L "string list" | Q rat

datatype msg = Msg string "arg list"

definition msg :: "string \<Rightarrow> msg" where
  "msg s = Msg s []"

text \<open>
  The pictographs that start the messages, as the bytes of the source file.
\<close>

definition icon_check :: string where
  "icon_check = [CHR 0xE2, CHR 0x80, CHR 0x9A, CHR 0xC3, CHR 0xBA, CHR 0xC3, CHR 0x96, CHR '' '']"


definition icon_arrow :: string where
  "icon_arrow = [CHR 0xE2, CHR 0x80, CHR 0x9A, CHR 0xC3, CHR 0x9C, CHR 0xC3, CHR 0xAD]"


















text \<open>
  The feedback dictionary of a section. A scorer adds points and appends messages
  criterion by criterion; an \<open>outcome\<close> is what one criterion adds, and \<open>tally\<close> puts the
  outcomes together in the order of the source: the points, whole numbers, summed into
  the float that starts as \<^verbatim>\<open>score = 0.0\<close>, the messages appended list by list.
\<close>

record feedback =
  strengths :: "msg list"
  improvements :: "msg list"
  errors :: "msg list"








section \<open>resume\_scorer.py: the tables of \<^verbatim>\<open>__init__\<close>\<close>



definition ws :: regex where
  "ws = Sym [Space]"

definition digit :: regex where
  "digit = Sym [Digit]"

definition word :: "string list \<Rightarrow> regex" where
  "word alternatives = seqs [WordB, one_of alternatives, WordB]"

text \<open>\<^verbatim>\<open>self.grammar_issues\<close>: the rule patterns with their descriptions, in the order of the dictionary.\<close>

definition grammar_issues :: "(regex \<times> string) list" where
  "grammar_issues =
     [(seqs [WordB, lit ''there'', plus ws, lit ''are'', plus ws, plus (Sym [Word]), plus ws,
             lit ''that'', plus ws, lit ''is'', WordB],
       ''Subject-verb disagreement''),
      (seqs [WordB, lit ''should'', plus ws, lit ''of'', WordB],
       ''Should use \"should have\"''),
      (seqs [WordB, lit ''could'', plus ws, lit ''of'', WordB],
       ''Should use \"could have\"''),
      (seqs [WordB, lit ''would'', plus ws, lit ''of'', WordB],
       ''Should use \"would have\"''),
      (seqs [WordB, lit ''it'', chr apostrophe, lit ''s'', plus ws, lit ''own'', WordB],
       ''Should use \"its own\"''),
      (seqs [WordB, lit ''your'', plus ws, lit ''welcome'', WordB],
       ''Should use \"you're welcome\"''),
      (seqs [WordB, lit ''effect'', plus ws, Group 1 (one_of [''on'', ''upon'']), WordB],
       ''Consider using \"affect\" instead''),
      (seqs [WordB, lit ''then'', plus ws, lit ''I'', plus ws, lit ''will'', WordB],
       ''Consider using \"than\" for comparisons'')]"

section \<open>resume\_scorer.py: cleaning the text and finding the sections\<close>

text \<open>
  \<^verbatim>\<open>_clean_text\<close>: \<^verbatim>\<open>re.sub(r'\s+', ' ', text)\<close>, then
  \<^verbatim>\<open>re.sub(r'[^\w\s\.,;:()\-]', '', text)\<close>, then \<^verbatim>\<open>strip()\<close>.
\<close>

definition safe_chars :: "cset list" where
  "safe_chars = [Word, Space, Lit CHR ''.'', Lit CHR '','', Lit CHR '';'', Lit CHR '':'',
                 Lit CHR ''('', Lit CHR '')'', Lit CHR ''-'']"

definition clean_text :: "string \<Rightarrow> string" where
  "clean_text text =
     (let text1 = re_sub (plus ws) '' '' text 0 [];
          text2 = re_sub (NSym safe_chars) [] text1 0 []
      in strip text2)"













section \<open>resume\_scorer.py: contact information\<close>











section \<open>resume\_scorer.py: the About section\<close>



text \<open>\<^verbatim>\<open>\b(\d+)\s*\+?\s*(?:years?|yrs?)\b\<close>\<close>

definition years_unit :: regex where
  "years_unit = Alt (Seq (lit ''year'') (opt (chr CHR ''s''))) (Seq (lit ''yr'') (opt (chr CHR ''s'')))"
























record about_analysis =
  a_word_count :: nat
  a_char_count :: nat
  key_elements_found :: nat
  first_person_usage :: nat
  domain_focus :: "string list"
  action_words_used :: "string list"
  expertise_indicators :: "string list"




section \<open>resume\_scorer.py: the Education section\<close>























record education_analysis =
  degrees_found :: "string list"
  certification_categories :: "string list"
  e_graduation_years :: "string list"
  entry_count :: nat
  section_length :: nat
  institution_mentioned :: bool




section \<open>resume\_scorer.py: the Experience section\<close>















section \<open>resume\_scorer.py: the Skills section\<close>








section \<open>resume\_scorer.py: grammar and spelling\<close>

record issue =
  i_type :: string
  i_issue :: string
  i_description :: string
  i_position :: nat
  i_context :: string

record improvement =
  imp_type :: string
  imp_issue :: string
  imp_suggestion :: string
  imp_example :: string

text \<open>
  \<^verbatim>\<open>text[max(0, a - 20):b + 20]\<close>: the subtraction on \<open>nat\<close> stops at 0, and a slice
  that runs past the end of the text stops at the end.
\<close>

definition context_of :: "string \<Rightarrow> nat \<Rightarrow> nat \<Rightarrow> string" where
  "context_of text a b = take (b + 20 - (a - 20)) (drop (a - 20) text)"

text \<open>The inner loop of the grammar check: one issue for every match \<^verbatim>\<open>re.finditer\<close> yields.\<close>

definition rule_issues :: "string \<Rightarrow> regex \<times> string \<Rightarrow> issue list" where
  "rule_issues text rule =
     map (\<lambda>m. \<lparr>i_type = ''grammar'', i_issue = m_group m, i_description = snd rule,
                i_position = m_start m, i_context = context_of text (m_start m) (m_end m)\<rparr>)
         (re_finditer (fst rule) text [IGNORECASE])"

definition grammar_rule_issues :: "string \<Rightarrow> issue list" where
  "grammar_rule_issues text = concat (map (rule_issues text) grammar_issues)"

text \<open>\<^verbatim>\<open>\s{3,}\<close> and \<^verbatim>\<open>[a-z]\.[A-Z]\<close>\<close>

definition formatting_checks :: "(regex \<times> issue) list" where
  "formatting_checks =
     [(at_least 3 ws,
       \<lparr>i_type = ''formatting'', i_issue = ''Multiple spaces'',
        i_description = ''Remove extra spaces between words'', i_position = 0,
        i_context = ''Multiple   spaces   found''\<rparr>),
      (seqs [Sym [Range CHR ''a'' CHR ''z''], chr CHR ''.'', Sym [Range CHR ''A'' CHR ''Z'']],
       \<lparr>i_type = ''formatting'', i_issue = ''Missing space after period'',
        i_description = ''Add space after periods'', i_position = 0,
        i_context = ''word.Next word''\<rparr>)]"

definition formatting_issue_list :: "string \<Rightarrow> issue list" where
  "formatting_issue_list text =
     map snd (filter (\<lambda>check. found (re_search (fst check) text [])) formatting_checks)"

text \<open>\<^verbatim>\<open>common_mistakes\<close>: each pattern is \<^verbatim>\<open>\bword\b\<close>, with the correction it suggests.\<close>

definition common_mistakes :: "(string \<times> string) list" where
  "common_mistakes =
     [(''recieve'', ''receive''),
      (''accommodate'', ''accommodate''),
      (''occurence'', ''occurrence''),
      (''seperate'', ''separate''),
      (''definately'', ''definitely''),
      (''environment'', ''environment''),
      (''maintenance'', ''maintenance'')]"

definition mistake_issue :: "string \<Rightarrow> string \<times> string \<Rightarrow> issue list" where
  "mistake_issue text mistake =
     (case re_search (seqs [WordB, lit (fst mistake), WordB]) text [IGNORECASE] of
        None \<Rightarrow> []
      | Some m \<Rightarrow>
          [\<lparr>i_type = ''spelling'', i_issue = m_group m,
            i_description = ''Correct spelling: '' @ snd mistake,
            i_position = m_start m, i_context = ''Change to: '' @ snd mistake\<rparr>])"

definition spelling_issue_list :: "string \<Rightarrow> issue list" where
  "spelling_issue_list text = concat (map (mistake_issue text) common_mistakes)"

text \<open>The three checks on a sentence, in the order of the source.\<close>

definition responsible_re :: regex where
  "responsible_re =
     seqs [WordB, Group 1 (one_of [''was'', ''were'', ''is'', ''are'']), plus ws, lit ''responsible'',
           plus ws, lit ''for'', WordB]"

definition vague_re :: regex where
  "vague_re = seqs [WordB, Group 1 (one_of [''many'', ''various'', ''several'', ''some'']), WordB]"

definition impact_re :: regex where
  "impact_re =
     seqs [WordB, Group 1 (one_of [''improved'', ''increased'', ''reduced'', ''saved'', ''managed'']), WordB]"

definition sentence_improvements :: "string \<Rightarrow> improvement list" where
  "sentence_improvements raw =
     (let sentence = strip raw
      in if length sentence < 10 then []
         else
           (if found (re_search responsible_re sentence [IGNORECASE])
            then [\<lparr>imp_type = ''sentence_improvement'', imp_issue = sentence,
                   imp_suggestion = ''Replace \"was responsible for\" with strong action verbs like \"managed\", \"led\", \"developed\"'',
                   imp_example = ''Instead of \"Was responsible for audits\" '' @ icon_arrow
                                  @ '' \"Conducted comprehensive audits\"''\<rparr>]
            else [])
           @ (if found (re_search vague_re sentence [IGNORECASE]) \<and> \<not> found (re_search (plus digit) sentence [])
              then [\<lparr>imp_type = ''sentence_improvement'', imp_issue = sentence,
                     imp_suggestion = ''Add specific numbers or quantify achievements'',
                     imp_example = ''Instead of \"managed various projects\" '' @ icon_arrow
                                    @ '' \"managed 15+ concurrent projects\"''\<rparr>]
              else [])
           @ (if found (re_search impact_re sentence [IGNORECASE])
                 \<and> \<not> found (re_search (Alt (plus digit) (chr CHR ''%'')) sentence [])
              then [\<lparr>imp_type = ''sentence_improvement'', imp_issue = sentence,
                     imp_suggestion = ''Quantify your achievements with specific numbers or percentages'',
                     imp_example = ''Instead of \"improved efficiency\" '' @ icon_arrow
                                    @ '' \"improved efficiency by 25%\"''\<rparr>]
              else []))"

text \<open>
  \<^verbatim>\<open>\b(achieved|managed|led|developed|implemented|improved)\b\<close>,
  \<^verbatim>\<open>\b(um|uh|like|you know)\b\<close> and
  \<^verbatim>\<open>\d+%|\$\d+|\d+\s*(million|thousand|projects|clients|team)\<close>
\<close>

definition professional_re :: regex where
  "professional_re =
     seqs [WordB, Group 1 (one_of [''achieved'', ''managed'', ''led'', ''developed'', ''implemented'',
                                   ''improved'']), WordB]"

definition filler_re :: regex where
  "filler_re = seqs [WordB, Group 1 (one_of [''um'', ''uh'', ''like'', ''you know'']), WordB]"

definition quantified_re :: regex where
  "quantified_re =
     alts [Seq (plus digit) (chr CHR ''%''),
           Seq (chr CHR ''$'') (plus digit),
           seqs [plus digit, star ws,
                 Group 1 (one_of [''million'', ''thousand'', ''projects'', ''clients'', ''team''])]]"

record grammar_report =
  g_issues :: "issue list"
  g_improvements :: "improvement list"
  correct_elements :: "string list"
  total_issues :: nat
  total_improvements :: nat
  grammar_errors :: nat
  formatting_issues :: nat
  spelling_issues :: nat
  overall_score :: int

text \<open>\<^verbatim>\<open>_check_grammar_spelling\<close>.\<close>

definition check_grammar_spelling :: "string \<Rightarrow> grammar_report" where
  "check_grammar_spelling text =
     (let grammar = grammar_rule_issues text;
          formatting = formatting_issue_list text;
          spelling = spelling_issue_list text;
          issues = grammar @ formatting @ spelling;
          grammar_errors_found = length grammar;
          sentences = re_split (plus (Sym [Lit CHR ''.'', Lit CHR ''!'', Lit CHR ''?''])) text;
          improvements = concat (map sentence_improvements (take 10 sentences));
          correct =
            (if grammar_errors_found = 0 then [icon_check @ ''No common grammar errors detected''] else [])
            @ (if length formatting = 0 then [icon_check @ ''Good formatting and spacing''] else [])
            @ (if length spelling = 0 then [icon_check @ ''No obvious spelling mistakes found''] else [])
            @ (if found (re_search professional_re text [IGNORECASE])
               then [icon_check @ ''Uses professional action words''] else [])
            @ (if \<not> found (re_search filler_re text [IGNORECASE])
               then [icon_check @ ''Professional tone maintained''] else [])
            @ (if found (re_search quantified_re text [IGNORECASE])
               then [icon_check @ ''Includes quantified achievements''] else [])
      in \<lparr>g_issues = take 15 issues,
          g_improvements = take 10 improvements,
          correct_elements = correct,
          total_issues = length issues,
          total_improvements = length improvements,
          grammar_errors = grammar_errors_found,
          formatting_issues = length formatting,
          spelling_issues = length spelling,
          overall_score = max 0 (10 - int (length issues))\<rparr>)"

section \<open>resume\_scorer.py: skills, certifications and word count\<close>

record hard_skills_analysis =
  h_found_skills :: "string list"
  h_missing_skills :: "string list"
  relevance_score :: rat
  density :: string
  total_found :: nat
  total_available :: nat



record soft_skills_analysis =
  s_found_skills :: "string list"
  s_missing_skills :: "string list"
  coverage_score :: rat
  assessment :: string



record cert_analysis =
  found_certifications :: "string list"
  relevant_for_domain :: "string list"
  missing_key_certs :: "string list"
  value_assessment :: string


text \<open>\<^verbatim>\<open>re.findall(r'(\d+)\s*(?:years?|yrs?)', text.lower())\<close>\<close>

definition years_re :: regex where
  "years_re = seqs [Group 1 (plus digit), star ws, years_unit]"

definition year_patterns :: "string \<Rightarrow> string list" where
  "year_patterns text = map (\<lambda>m. group m 1) (re_finditer years_re (lower text) [])"

definition years_mentioned :: "string \<Rightarrow> nat list" where
  "years_mentioned text =
     map int_of_digits (filter (\<lambda>year. int_of_digits year \<le> 50) (year_patterns text))"



record word_count_analysis =
  word_count :: nat
  is_fresher :: bool
  is_optimal :: bool
  status :: string
  recommendation :: msg
  target_range :: string


section \<open>resume\_scorer.py: recommendations\<close>















section \<open>resume\_scorer.py: the heat map and \<^verbatim>\<open>score_resume\<close>\<close>

record section_scores =
  about_me :: rat
  education :: rat
  experience :: rat
  skills :: rat

record heatmap =
  hm_section_scores :: section_scores
  hard_skills_density :: rat
  soft_skills_density :: rat
  content_quality :: rat
  qualifications :: rat
  professional_impact :: rat


record analysis_result =
  total_score :: rat
  scores :: section_scores
  about_feedback :: "feedback \<times> about_analysis"
  education_feedback :: "feedback \<times> education_analysis"
  experience_feedback :: feedback
  skills_feedback :: feedback
  grammar :: grammar_report
  word_counts :: word_count_analysis
  hard_skills :: hard_skills_analysis
  soft :: soft_skills_analysis
  certification_analysis :: cert_analysis
  recommendations :: "msg list"
  heatmap_data :: heatmap


section \<open>Characters by their bits\<close>

text \<open>
  The classes of characters, read off the eight bits of a character (the lowest first):
  the same functions as above, in the form in which they are evaluated on a given text.
\<close>

lemma is_upper_bits [code]:
  "is_upper (Char b0 b1 b2 b3 b4 b5 b6 b7) =
     (\<not> b7 \<and> b6 \<and> \<not> b5 \<and> (b0 \<or> b1 \<or> b2 \<or> b3 \<or> b4) \<and> \<not> (b4 \<and> b3 \<and> (b2 \<or> (b1 \<and> b0))))"
  by (cases b0; cases b1; cases b2; cases b3; cases b4; cases b5; cases b6; cases b7)
     (simp_all add: is_upper_def code_def)

lemma is_lower_bits [code]:
  "is_lower (Char b0 b1 b2 b3 b4 b5 b6 b7) =
     (\<not> b7 \<and> b6 \<and> b5 \<and> (b0 \<or> b1 \<or> b2 \<or> b3 \<or> b4) \<and> \<not> (b4 \<and> b3 \<and> (b2 \<or> (b1 \<and> b0))))"
  by (cases b0; cases b1; cases b2; cases b3; cases b4; cases b5; cases b6; cases b7)
     (simp_all add: is_lower_def code_def)

lemma is_digit_bits [code]:
  "is_digit (Char b0 b1 b2 b3 b4 b5 b6 b7) =
     (\<not> b7 \<and> \<not> b6 \<and> b5 \<and> b4 \<and> (\<not> b3 \<or> (\<not> b2 \<and> \<not> b1)))"
  by (cases b0; cases b1; cases b2; cases b3; cases b4; cases b5; cases b6; cases b7)
     (simp_all add: is_digit_def code_def)

lemma is_space_bits [code]:
  "is_space (Char b0 b1 b2 b3 b4 b5 b6 b7) =
     (\<not> b7 \<and> \<not> b6 \<and>
      (if b5 then \<not> b4 \<and> \<not> b3 \<and> \<not> b2 \<and> \<not> b1 \<and> \<not> b0
       else if b4 then b3 \<and> b2
       else b3 \<and> (b0 \<or> b1 \<or> b2) \<and> \<not> (b2 \<and> b1)))"
  by (cases b0; cases b1; cases b2; cases b3; cases b4; cases b5; cases b6; cases b7)
     (simp_all add: is_space_def code_def)

lemma lower_char_bits [code]:
  "lower_char (Char b0 b1 b2 b3 b4 b5 b6 b7) =
     (if is_upper (Char b0 b1 b2 b3 b4 b5 b6 b7) then Char b0 b1 b2 b3 b4 True b6 b7
      else Char b0 b1 b2 b3 b4 b5 b6 b7)"
  by (cases b0; cases b1; cases b2; cases b3; cases b4; cases b5; cases b6; cases b7)
     (simp_all add: lower_char_def is_upper_def code_def char_of_eq_iff)

lemma upper_char_bits [code]:
  "upper_char (Char b0 b1 b2 b3 b4 b5 b6 b7) =
     (if is_lower (Char b0 b1 b2 b3 b4 b5 b6 b7) then Char b0 b1 b2 b3 b4 False b6 b7
      else Char b0 b1 b2 b3 b4 b5 b6 b7)"
  by (cases b0; cases b1; cases b2; cases b3; cases b4; cases b5; cases b6; cases b7)
     (simp_all add: upper_char_def is_lower_def code_def char_of_eq_iff)

text \<open>The two ranges of letters are the classes \<open>is_lower\<close> and \<open>is_upper\<close>.\<close>

lemma in_cset_code [code]:
  "in_cset c (Lit a) = (c = a)"
  "in_cset c (Range a b) =
     (if a = CHR ''a'' \<and> b = CHR ''z'' then is_lower c
      else if a = CHR ''A'' \<and> b = CHR ''Z'' then is_upper c
      else code a \<le> code c \<and> code c \<le> code b)"
  "in_cset c Word = is_word c"
  "in_cset c Space = is_space c"
  "in_cset c Digit = is_digit c"
  by (simp_all add: is_lower_def is_upper_def code_def)

section \<open>Properties of the keyword catalog\<close>


lemma startswith_iff: "startswith s p \<longleftrightarrow> (\<exists>b. s = p @ b)"
  by (induction p arbitrary: s) (auto split: list.splits)

lemma str_in_iff: "str_in p s \<longleftrightarrow> (\<exists>a b. s = a @ p @ b)"
proof (induction s)
  case Nil
  then show ?case by auto
next
  case (Cons c cs)
  show ?case
  proof
    assume "str_in p (c # cs)"
    then consider "startswith (c # cs) p" | "str_in p cs" by auto
    then show "\<exists>a b. c # cs = a @ p @ b"
    proof cases
      case 1
      then obtain b where "c # cs = p @ b" by (auto simp: startswith_iff)
      then have "c # cs = [] @ p @ b" by simp
      then show ?thesis by blast
    next
      case 2
      then obtain a b where "cs = a @ p @ b" using Cons.IH by auto
      then have "c # cs = (c # a) @ p @ b" by simp
      then show ?thesis by blast
    qed
  next
    assume "\<exists>a b. c # cs = a @ p @ b"
    then obtain a b where ab: "c # cs = a @ p @ b" by auto
    show "str_in p (c # cs)"
    proof (cases a)
      case Nil
      then have "startswith (c # cs) p" using ab by (simp add: startswith_iff)
      then show ?thesis by simp
    next
      case (Cons x xs)
      then have "cs = xs @ p @ b" using ab by simp
      then show ?thesis using Cons.IH by auto
    qed
  qed
qed


lemma add_custom_keywords_keys:
  "add_custom_keywords ds domain kws = (r, ds') \<Longrightarrow> map fst ds' = map fst ds"
  by (auto simp: add_custom_keywords_def extend_keywords_def Let_def split: option.splits)

lemma reachable_keys: "reachable ds \<Longrightarrow> map fst ds = map fst init_domains"
  by (induction rule: reachable.induct) (auto dest: add_custom_keywords_keys)

lemma init_keys:
  "map fst init_domains =
     [''general'', ''accounting'', ''banking'', ''direct_tax'', ''fpa'', ''gst'',
      ''internal_audit'', ''investment_banking'', ''r2r'', ''statutory_audit'',
      ''wealth_management'', ''auditing'', ''taxation'', ''finance'']"
  by (simp add: init_domains_def)

lemma reachable_has_defaults:
  assumes "reachable ds"
  shows "\<exists>g a. map_of ds ''general'' = Some g \<and> map_of ds ''accounting'' = Some a"
proof -
  have k: "map fst ds = map fst init_domains" using assms by (rule reachable_keys)
  have "''general'' \<in> set (map fst ds)" "''accounting'' \<in> set (map fst ds)"
    unfolding k init_keys by simp_all
  then have "''general'' \<in> dom (map_of ds)" "''accounting'' \<in> dom (map_of ds)"
    by (simp_all add: dom_map_of_conv_image_fst)
  then show ?thesis by auto
qed

lemma get_domain_keywords_total:
  assumes "reachable ds"
  shows "get_domain_keywords ds domain =
           Inr (case map_of ds domain of Some dd \<Rightarrow> dd | None \<Rightarrow> the (map_of ds ''general''))"
  using reachable_has_defaults [OF assms]
  by (auto simp: get_domain_keywords_def split: option.splits)



text \<open>
  Claim C7. Reading never raises: on every catalog the program can hold,
  \<^verbatim>\<open>get_domain_keywords\<close> returns the data of a registered key and the data of
  \<^verbatim>\<open>general\<close> for any other key. Writing raises exactly for an unregistered key:
  \<^verbatim>\<open>add_custom_keywords\<close> ends with an error if and only if the key is not registered,
  and then the catalog is the one it was called with.
\<close>
theorem domain_resolution_asymmetry:
  assumes "reachable ds"
  shows "(\<exists>dd. get_domain_keywords ds domain = Inr dd
            \<and> (\<forall>d. map_of ds domain = Some d \<longrightarrow> dd = d)
            \<and> (domain \<notin> fst ` set ds \<longrightarrow> map_of ds ''general'' = Some dd))
       \<and> ((\<exists>e. fst (add_custom_keywords ds domain kws) = Inl e) \<longleftrightarrow> domain \<notin> fst ` set ds)
       \<and> (domain \<notin> fst ` set ds \<longrightarrow>
            add_custom_keywords ds domain kws = (Inl (ValueError domain), ds))
       \<and> (domain \<in> fst ` set ds \<longrightarrow> fst (add_custom_keywords ds domain kws) = Inr ())"
proof -
  have none: "map_of ds domain = None \<longleftrightarrow> domain \<notin> fst ` set ds"
    by (rule map_of_eq_None_iff)
  obtain g where g: "map_of ds ''general'' = Some g"
    using reachable_has_defaults [OF assms] by blast
  have get: "\<exists>dd. get_domain_keywords ds domain = Inr dd
            \<and> (\<forall>d. map_of ds domain = Some d \<longrightarrow> dd = d)
            \<and> (domain \<notin> fst ` set ds \<longrightarrow> map_of ds ''general'' = Some dd)"
    using get_domain_keywords_total [OF assms, of domain] g none
    by (cases "map_of ds domain") auto
  have add: "(\<exists>e. fst (add_custom_keywords ds domain kws) = Inl e) \<longleftrightarrow> domain \<notin> fst ` set ds"
    using none by (cases "map_of ds domain") (auto simp: add_custom_keywords_def Let_def)
  have unchanged: "domain \<notin> fst ` set ds \<longrightarrow>
            add_custom_keywords ds domain kws = (Inl (ValueError domain), ds)"
    using none by (auto simp: add_custom_keywords_def)
  have ok: "domain \<in> fst ` set ds \<longrightarrow> fst (add_custom_keywords ds domain kws) = Inr ()"
    using none by (cases "map_of ds domain") (auto simp: add_custom_keywords_def Let_def)
  show ?thesis using get add unchanged ok by blast
qed

theorem domain_resolution_asymmetry_witness:
  "reachable init_domains
   \<and> ''marketing'' \<notin> fst ` set init_domains
   \<and> get_domain_keywords init_domains ''marketing'' = Inr (the (map_of init_domains ''general''))
   \<and> add_custom_keywords init_domains ''marketing'' [''seo''] = (Inl (ValueError ''marketing''), init_domains)"
proof -
  have k: "''marketing'' \<notin> fst ` set init_domains"
    using init_keys by (simp flip: set_map)
  have g: "\<exists>g. map_of init_domains ''general'' = Some g"
    using reachable_has_defaults [OF reachable.init] by blast
  show ?thesis
    using domain_resolution_asymmetry [OF reachable.init, of "''marketing''" "[''seo'']"] k g
    by (auto simp: reachable.init)
qed

text \<open>The initial catalog has no domain with two keywords equal up to case.\<close>

lemma init_no_duplicates: "list_all (\<lambda>e. no_duplicates (snd e)) init_domains"
  by code_simp

lemma map_of_extend:
  "map_of (map (extend_keywords domain new) ds) k =
     (if k = domain then map_option (\<lambda>dd. dd\<lparr>keyword_list := keyword_list dd @ new\<rparr>) (map_of ds k)
      else map_of ds k)"
  by (induction ds) (auto simp: extend_keywords_def)

text \<open>Adding a list whose entries differ from each other up to case keeps the invariant.\<close>

lemma add_custom_keywords_no_duplicates:
  assumes inv: "list_all (\<lambda>e. no_duplicates (snd e)) ds"
    and keys: "distinct (map fst ds)"
    and new: "distinct (map lower kws)"
    and add: "add_custom_keywords ds domain kws = (Inr (), ds')"
  shows "list_all (\<lambda>e. no_duplicates (snd e)) ds'"
proof -
  obtain dd where dd: "map_of ds domain = Some dd"
    using add by (auto simp: add_custom_keywords_def split: option.splits)
  define new_keywords where
    "new_keywords = filter (\<lambda>kw. lower kw \<notin> set (map lower (keyword_list dd))) kws"
  have ds': "ds' = map (extend_keywords domain new_keywords) ds"
    using add dd by (simp add: add_custom_keywords_def new_keywords_def Let_def)
  have dn: "distinct (map lower new_keywords)"
    unfolding new_keywords_def using new by (simp add: distinct_map_filter)
  have disj: "set (map lower new_keywords) \<inter> set (map lower (keyword_list dd)) = {}"
    unfolding new_keywords_def by auto
  have "no_duplicates (snd (extend_keywords domain new_keywords e))" if e: "e \<in> set ds" for e
  proof (cases "fst e = domain")
    case False
    then show ?thesis using inv e by (auto simp: extend_keywords_def list_all_iff)
  next
    case True
    have "map_of ds (fst e) = Some (snd e)"
      using keys e by (cases e) simp
    then have "snd e = dd" using dd True by simp
    moreover have "no_duplicates dd" using inv e \<open>snd e = dd\<close> by (auto simp: list_all_iff)
    ultimately show ?thesis using True dn disj
      by (auto simp: extend_keywords_def no_duplicates_def)
  qed
  then show ?thesis unfolding ds' by (auto simp: list_all_iff)
qed

text \<open>
  Claim C8. The filter of \<^verbatim>\<open>add_custom_keywords\<close> compares each new keyword with the
  keywords the domain already has, not with the other new ones: adding
  \<^verbatim>\<open>['Tally', 'tally']\<close> to \<^verbatim>\<open>general\<close> succeeds and leaves both entries in the
  list, two keywords equal up to case.
\<close>

theorem add_custom_keywords_duplicate_input: "fst (add_custom_keywords init_domains ''general'' [''Tally'', ''tally'']) = Inr ()
    \<and> map_option keyword_list (map_of (snd (add_custom_keywords init_domains ''general'' [''Tally'', ''tally''])) ''general'')
       = Some [''finance basics'', ''business strategy'', ''corporate structure'',
        ''communication skills'', ''excel'', ''ethics in finance'', ''Tally'', ''tally'']
    \<and> \<not> list_all (\<lambda>e. no_duplicates (snd e)) (snd (add_custom_keywords init_domains ''general'' [''Tally'', ''tally'']))"
  by code_simp

section \<open>Properties of the matcher\<close>

text \<open>A match ends in the text it started in: what is left is a suffix of what was left.\<close>

lemma step_if_suffix: "s' \<in> set (step_if P s) \<Longrightarrow> \<exists>c. rest s = c # rest s'"
  by (cases "rest s") (auto simp: step_if_def split: if_splits)

lemma star_loop_suffix:
  assumes pass: "\<And>s s'. s' \<in> set (pass s) \<Longrightarrow> \<exists>u. rest s = u @ rest s'"
  shows "s' \<in> set (star_loop pass g n s) \<Longrightarrow> \<exists>u. rest s = u @ rest s'"
proof (induction n arbitrary: s)
  case 0
  then show ?case by simp
next
  case (Suc n)
  from Suc.prems consider "s' = s"
    | t where "t \<in> set (pass s)" "length (rest t) < length (rest s)" "s' \<in> set (star_loop pass g n t)"
    by (auto simp: Let_def split: if_splits)
  then show ?case
  proof cases
    case 1
    then show ?thesis by simp
  next
    case 2
    obtain u where u: "rest s = u @ rest t" using pass [OF 2(1)] by blast
    obtain v where v: "rest t = v @ rest s'" using Suc.IH [OF 2(3)] by blast
    have "rest s = (u @ v) @ rest s'" using u v by simp
    then show ?thesis by blast
  qed
qed

lemma matches_suffix:
  "s' \<in> set (matches fl r s) \<Longrightarrow> \<exists>u. rest s = u @ rest s'"
proof (induction r arbitrary: s s')
  case (Seq a b)
  then obtain t where t: "t \<in> set (matches fl a s)" "s' \<in> set (matches fl b t)" by auto
  obtain u where u: "rest s = u @ rest t" using Seq.IH(1) [OF t(1)] by blast
  obtain v where v: "rest t = v @ rest s'" using Seq.IH(2) [OF t(2)] by blast
  have "rest s = (u @ v) @ rest s'" using u v by simp
  then show ?case by blast
next
  case (Star g r)
  then have "s' \<in> set (star_loop (matches fl r) g (length (rest s)) s)" by simp
  then show ?case using star_loop_suffix [of "matches fl r"] Star.IH by blast
next
  case (Group n r)
  then obtain t where "t \<in> set (matches fl r s)" "s' = capture n s t" by auto
  then show ?case using Group.IH [of t s] by (auto simp: capture_def)
next
  case (Sym cs)
  then show ?case using step_if_suffix [of s'] by (metis append_Cons append_Nil matches.simps(1))
next
  case (NSym cs)
  then show ?case using step_if_suffix [of s'] by (metis append_Cons append_Nil matches.simps(2))
next
  case Dot
  then show ?case using step_if_suffix [of s'] by (metis append_Cons append_Nil matches.simps(3))
qed (auto split: if_splits)


lemma matches_length:
  "s' \<in> set (matches fl r s) \<Longrightarrow> length (rest s') \<le> length (rest s)"
  using matches_suffix [of s' fl r s] by auto






lemma sub_class_filter:
  "sub_from fl (NSym cs) [] n None 0 p s = filter (in_class fl cs) s"
proof (induction s arbitrary: p)
  case Nil
  then show ?case by simp
next
  case (Cons c s)
  show ?case
  proof (cases "in_class fl cs c")
    case True
    then have "match_at fl (NSym cs) n p (c # s) = None"
      by (simp add: match_at_def step_if_def)
    then show ?thesis using True Cons by simp
  next
    case False
    then have "match_at fl (NSym cs) n p (c # s) =
        Some \<lparr>m_start = n - Suc (length s), m_end = n - length s, m_group = [c], m_groups = []\<rparr>"
      by (simp add: match_at_def step_if_def)
    then show ?thesis using False Cons by simp
  qed
qed


lemma set_strip: "set (strip s) \<subseteq> set s"
proof -
  have "set (dropWhile is_space (rev (dropWhile is_space s))) \<subseteq> set (rev (dropWhile is_space s))"
    by (meson set_dropWhileD subsetI)
  moreover have "set (dropWhile is_space s) \<subseteq> set s"
    by (meson set_dropWhileD subsetI)
  ultimately show ?thesis by (auto simp: strip_def)
qed


lemma clean_text_safe: "\<forall>c \<in> set (clean_text text). in_class [] safe_chars c"
proof -
  let ?t1 = "re_sub (plus ws) '' '' text 0 []"
  have "re_sub (NSym safe_chars) [] ?t1 0 [] = filter (in_class [] safe_chars) ?t1"
    by (simp add: re_sub_def sub_class_filter)
  then have "\<forall>c \<in> set (re_sub (NSym safe_chars) [] ?t1 0 []). in_class [] safe_chars c"
    by simp
  then show ?thesis using set_strip by (fastforce simp: clean_text_def Let_def)
qed


text \<open>\<^verbatim>\<open>re.search\<close> finds the first match of \<^verbatim>\<open>re.finditer\<close>, and the matches of a scan do not overlap.\<close>

lemma search_is_first_match:
  "search_from fl r n p cs = (case iter_from fl r n 0 p cs of [] \<Rightarrow> None | m # ms \<Rightarrow> Some m)"
  by (induction cs arbitrary: p) (auto split: option.splits)

lemma match_at_span:
  assumes "match_at fl r n p cs = Some m" "length cs \<le> n"
  shows "m_start m = n - length cs \<and> m_start m \<le> m_end m \<and> m_end m \<le> n
         \<and> length (m_group m) = m_end m - m_start m"
proof -
  obtain e es where e: "matches fl r \<lparr>prev = p, rest = cs, groups = []\<rparr> = e # es"
    using assms(1) by (cases "matches fl r \<lparr>prev = p, rest = cs, groups = []\<rparr>") (auto simp: match_at_def)
  then have "e \<in> set (matches fl r \<lparr>prev = p, rest = cs, groups = []\<rparr>)" by simp
  then have "length (rest e) \<le> length (rest \<lparr>prev = p, rest = cs, groups = []\<rparr>)"
    by (rule matches_length)
  then have le: "length (rest e) \<le> length cs" by simp
  have m: "m = \<lparr>m_start = n - length cs, m_end = n - length (rest e),
       m_group = take (length cs - length (rest e)) cs, m_groups = groups e\<rparr>"
    using assms(1) e by (simp add: match_at_def)
  show ?thesis unfolding m using le assms(2) by simp
qed

text \<open>The matches of a scan lie at or after the position the scan resumes at, in the text.\<close>

lemma iter_from_bounds:
  "length cs \<le> n \<Longrightarrow> m \<in> set (iter_from fl r n k p cs) \<Longrightarrow>
     n - length cs + k \<le> m_start m"
proof (induction cs arbitrary: k p)
  case Nil
  from Nil.prems(2) have k: "k = 0" by (cases "k = 0") simp_all
  then have "m \<in> set (case match_at fl r n p [] of None \<Rightarrow> [] | Some m \<Rightarrow> [m])"
    using Nil.prems(2) by simp
  then have m: "match_at fl r n p [] = Some m"
    by (cases "match_at fl r n p []") simp_all
  have "m_start m = n - length ([] :: string)" using match_at_span [OF m] by simp
  then show ?case using k by simp
next
  case (Cons c cs)
  have n: "length cs \<le> n" "n - length (c # cs) + 1 = n - length cs" using Cons.prems(1) by simp_all
  show ?case
  proof (cases "0 < k")
    case True
    then have "m \<in> set (iter_from fl r n (k - 1) (Some c) cs)" using Cons.prems by simp
    then have "n - length cs + (k - 1) \<le> m_start m" using Cons.IH n by blast
    then show ?thesis using n True by simp
  next
    case False
    show ?thesis
    proof (cases "match_at fl r n p (c # cs)")
      case None
      then have "m \<in> set (iter_from fl r n 0 (Some c) cs)" using Cons.prems False by simp
      then have "n - length cs + 0 \<le> m_start m" using Cons.IH n by blast
      then show ?thesis using n False by simp
    next
      case (Some m')
      note sp = match_at_span [OF Some Cons.prems(1)]
      from Cons.prems False Some
      consider "m = m'" | "m \<in> set (iter_from fl r n (length (m_group m') - 1) (Some c) cs)"
        by auto
      then show ?thesis
      proof cases
        case 1
        then show ?thesis using sp False by simp
      next
        case 2
        then have "n - length cs + (length (m_group m') - 1) \<le> m_start m" using Cons.IH n by blast
        then show ?thesis using n False by simp
      qed
    qed
  qed
qed

lemma iter_from_disjoint:
  "length cs \<le> n \<Longrightarrow> sorted_wrt (\<lambda>a b. m_end a \<le> m_start b) (iter_from fl r n k p cs)"
proof (induction cs arbitrary: k p)
  case Nil
  then show ?case by (auto split: option.splits)
next
  case (Cons c cs)
  have n: "length cs \<le> n" "n - length (c # cs) + 1 = n - length cs" using Cons.prems(1) by simp_all
  show ?case
  proof (cases "0 < k")
    case True
    then show ?thesis using Cons.IH [OF n(1), of "k - 1" "Some c"] by simp
  next
    case False
    show ?thesis
    proof (cases "match_at fl r n p (c # cs)")
      case None
      then show ?thesis using Cons.IH [OF n(1), of 0 "Some c"] False by simp
    next
      case (Some m')
      note sp = match_at_span [OF Some Cons.prems]
      have "m_end m' \<le> m_start b"
        if b: "b \<in> set (iter_from fl r n (length (m_group m') - 1) (Some c) cs)" for b
      proof -
        have "n - length cs + (length (m_group m') - 1) \<le> m_start b"
          using iter_from_bounds [OF n(1) b] .
        then show ?thesis using sp n by (cases "length (m_group m')") auto
      qed
      then show ?thesis
        using Cons.IH [OF n(1), of "length (m_group m') - 1" "Some c"] False Some by simp
    qed
  qed
qed


section \<open>Properties of the section scores\<close>













lemma find_in_set: "find P xs = Some x \<Longrightarrow> x \<in> set xs"
  by (induction xs) (auto split: if_splits)






section \<open>A text without sections\<close>

















section \<open>Properties of the grammar report\<close>

lemma grammar_report:
  "g_issues (check_grammar_spelling text) =
     take 15 (grammar_rule_issues text @ formatting_issue_list text @ spelling_issue_list text)"
  "total_issues (check_grammar_spelling text) =
     length (grammar_rule_issues text) + length (formatting_issue_list text) + length (spelling_issue_list text)"
  "grammar_errors (check_grammar_spelling text) = length (grammar_rule_issues text)"
  "spelling_issues (check_grammar_spelling text) = length (spelling_issue_list text)"
  "overall_score (check_grammar_spelling text) = max 0 (10 - int (total_issues (check_grammar_spelling text)))"
  by (simp_all add: check_grammar_spelling_def Let_def)

text \<open>
  Claim C4. For every text the overall score of the grammar report is
  \<open>max 0 (10 - total_issues)\<close>, where \<open>total_issues\<close> counts all grammar, formatting and
  spelling issues found, before the list of issues is cut to its first 15 entries: 3 issues
  give 7, 15 or more give 0, and the score is never negative.
\<close>

theorem grammar_overall_score:
  "overall_score (check_grammar_spelling text) = max 0 (10 - int (total_issues (check_grammar_spelling text)))
   \<and> total_issues (check_grammar_spelling text) =
       length (grammar_rule_issues text) + length (formatting_issue_list text) + length (spelling_issue_list text)
   \<and> g_issues (check_grammar_spelling text) =
       take 15 (grammar_rule_issues text @ formatting_issue_list text @ spelling_issue_list text)
   \<and> (total_issues (check_grammar_spelling text) = 3 \<longrightarrow> overall_score (check_grammar_spelling text) = 7)
   \<and> (15 \<le> total_issues (check_grammar_spelling text) \<longrightarrow> overall_score (check_grammar_spelling text) = 0)
   \<and> 0 \<le> overall_score (check_grammar_spelling text)"
  by (simp add: check_grammar_spelling_def Let_def)

lemma three_issues:
  "length (grammar_rule_issues ''should of, could of, would of'') = 3"
  "length (formatting_issue_list ''should of, could of, would of'') = 0"
  "length (spelling_issue_list ''should of, could of, would of'') = 0"
  by code_simp+

lemma sixteen_issues:
  "length (grammar_rule_issues (concat (replicate 16 ''should of ''))) = 16"
  "length (formatting_issue_list (concat (replicate 16 ''should of ''))) = 0"
  "length (spelling_issue_list (concat (replicate 16 ''should of ''))) = 0"
  by code_simp+

theorem grammar_overall_score_witness:
  "total_issues (check_grammar_spelling ''should of, could of, would of'') = 3
   \<and> overall_score (check_grammar_spelling ''should of, could of, would of'') = 7
   \<and> total_issues (check_grammar_spelling (concat (replicate 16 ''should of ''))) = 16
   \<and> length (g_issues (check_grammar_spelling (concat (replicate 16 ''should of '')))) = 15
   \<and> overall_score (check_grammar_spelling (concat (replicate 16 ''should of ''))) = 0"
proof -
  let ?s = "''should of, could of, would of''"
  let ?t = "concat (replicate 16 ''should of '')"
  have s3: "total_issues (check_grammar_spelling ?s) = 3"
    using grammar_overall_score [of ?s] by (simp only: three_issues)
  have a: "overall_score (check_grammar_spelling ?s) = 7"
    using grammar_overall_score [of ?s] s3 by blast
  have t16: "total_issues (check_grammar_spelling ?t) = 16"
    using grammar_overall_score [of ?t] by (simp only: sixteen_issues)
  have b: "overall_score (check_grammar_spelling ?t) = 0"
    using grammar_overall_score [of ?t] t16 by simp
  have "length (grammar_rule_issues ?t @ formatting_issue_list ?t @ spelling_issue_list ?t) = 16"
    by (simp only: length_append sixteen_issues)
  moreover have "g_issues (check_grammar_spelling ?t) =
       take 15 (grammar_rule_issues ?t @ formatting_issue_list ?t @ spelling_issue_list ?t)"
    using grammar_overall_score [of ?t] by blast
  ultimately have c: "length (g_issues (check_grammar_spelling ?t)) = 15" by simp
  show ?thesis using s3 a t16 b c by blast
qed

lemma repeated_grammar:
  "grammar_rule_issues ''should of should of'' =
     [\<lparr>i_type = ''grammar'', i_issue = ''should of'', i_description = ''Should use \"should have\"'',
       i_position = 0, i_context = ''should of should of''\<rparr>,
      \<lparr>i_type = ''grammar'', i_issue = ''should of'', i_description = ''Should use \"should have\"'',
       i_position = 10, i_context = ''should of should of''\<rparr>]"
  "formatting_issue_list ''should of should of'' = []"
  "spelling_issue_list ''should of should of'' = []"
  by code_simp+

text \<open>
  Claim C5 fails as stated: the rule for \<^verbatim>\<open>should of\<close> matches twice in
  \<^verbatim>\<open>should of should of\<close>, and the report holds an issue for each match, at the positions
  0 and 10.
\<close>

theorem grammar_rule_repeated_match:
  "map (\<lambda>i. (i_issue i, i_description i, i_position i))
       (g_issues (check_grammar_spelling ''should of should of'')) =
     [(''should of'', ''Should use \"should have\"'', 0), (''should of'', ''Should use \"should have\"'', 10)]"
  unfolding grammar_report repeated_grammar by simp

text \<open>
  Claim C5, amended. For every text and every grammar rule, the checker records one issue
  for every match that \<^verbatim>\<open>re.finditer\<close> yields for the rule's pattern: the matches from left
  to right, none overlapping another, the first of them the match \<^verbatim>\<open>re.search\<close> finds; the
  issue carries the matched text and its offset. The count of grammar errors is the number
  of all these matches, and the report lists the issues of the rules, in the order of the
  rules, before the formatting and spelling issues, cut to 15 entries.
\<close>

theorem grammar_issue_per_match:
  "grammar_errors (check_grammar_spelling text) =
     sum_list (map (\<lambda>rule. length (re_finditer (fst rule) text [IGNORECASE])) grammar_issues)
   \<and> g_issues (check_grammar_spelling text) =
       take 15 (concat (map (rule_issues text) grammar_issues)
                @ formatting_issue_list text @ spelling_issue_list text)
   \<and> list_all (\<lambda>rule.
         map i_issue (rule_issues text rule) = map m_group (re_finditer (fst rule) text [IGNORECASE])
         \<and> map i_position (rule_issues text rule) = map m_start (re_finditer (fst rule) text [IGNORECASE])
         \<and> sorted_wrt (\<lambda>a b. m_end a \<le> m_start b) (re_finditer (fst rule) text [IGNORECASE])
         \<and> re_search (fst rule) text [IGNORECASE] =
             (case re_finditer (fst rule) text [IGNORECASE] of [] \<Rightarrow> None | m # ms \<Rightarrow> Some m))
       grammar_issues"
proof -
  have a: "grammar_errors (check_grammar_spelling text) =
     sum_list (map (\<lambda>rule. length (re_finditer (fst rule) text [IGNORECASE])) grammar_issues)"
    by (simp add: check_grammar_spelling_def Let_def grammar_rule_issues_def length_concat
        rule_issues_def o_def)
  have b: "g_issues (check_grammar_spelling text) =
       take 15 (concat (map (rule_issues text) grammar_issues)
                @ formatting_issue_list text @ spelling_issue_list text)"
    by (simp add: check_grammar_spelling_def Let_def grammar_rule_issues_def)
  have c: "map i_issue (rule_issues text rule) = map m_group (re_finditer (fst rule) text [IGNORECASE])
         \<and> map i_position (rule_issues text rule) = map m_start (re_finditer (fst rule) text [IGNORECASE])
         \<and> sorted_wrt (\<lambda>a b. m_end a \<le> m_start b) (re_finditer (fst rule) text [IGNORECASE])
         \<and> re_search (fst rule) text [IGNORECASE] =
             (case re_finditer (fst rule) text [IGNORECASE] of [] \<Rightarrow> None | m # ms \<Rightarrow> Some m)" for rule
    by (simp add: rule_issues_def o_def re_finditer_def re_search_def iter_from_disjoint
        search_is_first_match)
  show ?thesis using a b c by (simp add: list_all_iff)
qed

lemma repeated_match_count:
  "sum_list (map (\<lambda>rule. length (re_finditer (fst rule) ''should of should of'' [IGNORECASE])) grammar_issues) = 2"
  by code_simp

theorem grammar_issue_per_match_witness:
  "grammar_errors (check_grammar_spelling ''should of should of'') = 2"
  using grammar_issue_per_match [of "''should of should of''"] repeated_match_count by simp

lemma correct_words_grammar: "grammar_rule_issues ''We accommodate every environment'' = []"
  by code_simp

lemma correct_words_formatting: "formatting_issue_list ''We accommodate every environment'' = []"
  by code_simp

lemma correct_words_spelling:
  "spelling_issue_list ''We accommodate every environment'' =
     [\<lparr>i_type = ''spelling'', i_issue = ''accommodate'',
       i_description = ''Correct spelling: accommodate'', i_position = 3,
       i_context = ''Change to: accommodate''\<rparr>,
      \<lparr>i_type = ''spelling'', i_issue = ''environment'',
       i_description = ''Correct spelling: environment'', i_position = 21,
       i_context = ''Change to: environment''\<rparr>]"
  by code_simp

text \<open>
  Claim C6 fails on the code: three entries of \<^verbatim>\<open>common_mistakes\<close> have the correct
  spelling as their pattern. A text of correctly spelled words, with \<^verbatim>\<open>accommodate\<close> and
  \<^verbatim>\<open>environment\<close> among them, gets two spelling issues whose matched text is the suggested
  correction, and loses two points of the overall score.
\<close>

theorem spelling_flags_correct_words:
  "g_issues (check_grammar_spelling ''We accommodate every environment'') =
     [\<lparr>i_type = ''spelling'', i_issue = ''accommodate'',
       i_description = ''Correct spelling: accommodate'', i_position = 3,
       i_context = ''Change to: accommodate''\<rparr>,
      \<lparr>i_type = ''spelling'', i_issue = ''environment'',
       i_description = ''Correct spelling: environment'', i_position = 21,
       i_context = ''Change to: environment''\<rparr>]
   \<and> spelling_issues (check_grammar_spelling ''We accommodate every environment'') = 2
   \<and> overall_score (check_grammar_spelling ''We accommodate every environment'') = 8"
  by (simp add: check_grammar_spelling_def Let_def correct_words_grammar correct_words_formatting
      correct_words_spelling)

text \<open>A pair of \<^verbatim>\<open>common_mistakes\<close> gives at most one issue.\<close>

lemma spelling_one_per_pair: "length (mistake_issue text mistake) \<le> 1"
  by (simp add: mistake_issue_def split: option.splits)

section \<open>Properties of the word count\<close>


































text \<open>A digit before the phrase belongs to the number: the scan reads 110, which is discarded.\<close>

lemma digit_before_ten_years: "years_mentioned ''110 years experience'' = []"
  by code_simp














section \<open>The e-mail address in the contact analysis\<close>








end
